theory Spec2Isabelle
  imports Complex_Main "HOL-Library.Word"
begin

section \<open>The voice chat client (client.py)\<close>

text \<open>
  A shallow embedding of the client: the module constants and globals, the two device
  callbacks, the handshake of a session, and the three activities of a session
  (sender, receiver, command monitor). Samples are float32 in the source; here they are
  reals, so rounding is not modelled. Bytes are 8-bit words. A Python \<open>str\<close> is a
  \<open>string\<close>, each \<open>char\<close> read as a code point below 256.
\<close>

type_synonym sample = real
type_synonym byte = "8 word"

subsection \<open>Module constants\<close>

definition SAMPLE_RATE :: nat where
  "SAMPLE_RATE = 24000"

definition FRAME_SIZE :: nat where
  "FRAME_SIZE = 480"

definition CHANNELS :: nat where
  "CHANNELS = 1"

definition MAX_QUEUE_SIZE :: nat where
  "MAX_QUEUE_SIZE = 10"

text \<open>The \<open>maxlen\<close> of \<open>speaker_buffer = deque(maxlen=100000)\<close>.\<close>

definition SPEAKER_MAXLEN :: nat where
  "SPEAKER_MAXLEN = 100000"

subsection \<open>Errors\<close>

text \<open>The exceptions that the modelled code can meet, as values.\<close>

datatype py_error =
    QueueFull
  | QueueEmpty
  | NameError string
  | UnicodeDecodeError
  | CodecError
  | ConnectionClosed

subsection \<open>Library containers: \<open>queue.Queue\<close> and \<open>collections.deque\<close>\<close>

text \<open>
  A \<open>queue.Queue(maxsize)\<close> is the list of its entries, oldest first.
  \<open>put_nowait\<close> raises \<open>Full\<close> when \<open>maxsize > 0\<close> and the queue holds
  \<open>maxsize\<close> entries; \<open>get_nowait\<close> raises \<open>Empty\<close> on the empty queue.
\<close>

definition put_nowait :: "nat \<Rightarrow> 'a list \<Rightarrow> 'a \<Rightarrow> py_error + 'a list" where
  "put_nowait maxsize q x =
     (if 0 < maxsize \<and> maxsize \<le> length q then Inl QueueFull else Inr (q @ [x]))"

definition get_nowait :: "'a list \<Rightarrow> py_error + ('a \<times> 'a list)" where
  "get_nowait q = (case q of [] \<Rightarrow> Inl QueueEmpty | x # r \<Rightarrow> Inr (x, r))"

text \<open>
  A \<open>deque(maxlen)\<close> is the list of its items, leftmost first. \<open>extend\<close> appends the
  items one by one, and an append to a full deque discards the leftmost item: what
  stays is the last \<open>maxlen\<close> items of the old content followed by the new.
\<close>

definition deque_extend :: "nat \<Rightarrow> 'a list \<Rightarrow> 'a list \<Rightarrow> 'a list" where
  "deque_extend maxlen d xs = drop (length (d @ xs) - maxlen) (d @ xs)"

subsection \<open>Module globals\<close>

text \<open>The \<open>stats\<close> dictionary has three fixed keys.\<close>

record stats_dict =
  mic_overflows :: nat
  speaker_underruns :: nat
  queue_size :: nat

text \<open>
  A global name is either bound to a value or not bound at all; reading a name that is
  not bound raises \<open>NameError\<close>.
\<close>

datatype 'a global = Unbound | Bound 'a

text \<open>
  What travels on the websocket: a text frame (\<open>str\<close>) or a binary frame
  (\<open>bytes\<close>) when received; the JSON configuration or bytes when sent.
\<close>

datatype ws_msg = TextMsg string | BytesMsg "byte list"

record config =
  voice_prompt :: string
  text_prompt :: string
  seed :: int

datatype ws_out = SendJson config | SendBytes "byte list"

text \<open>
  The state of the client. \<open>mic_queue\<close>, \<open>speaker_buffer\<close>, \<open>stats\<close>,
  \<open>restart_requested\<close>, \<open>current_speaker\<close> and \<open>current_line_buffer\<close> are the
  module's globals; \<open>current_speaker\<close> holds \<open>None\<close> or a string once bound.
  \<open>ws_sent\<close> and \<open>ws_up\<close> stand for the websocket (the messages sent so far, and
  whether a send succeeds), \<open>console\<close> for what has been printed.
\<close>

record client =
  mic_queue :: "sample list list"
  speaker_buffer :: "sample list"
  stats :: stats_dict
  restart_requested :: bool
  current_speaker :: "string option global"
  current_line_buffer :: "string list"
  ws_sent :: "ws_out list"
  ws_up :: bool
  console :: "string list"

text \<open>
  The state once the module is loaded (lines 16 to 27): no statement of the module binds
  \<open>current_speaker\<close>.
\<close>

definition module_init :: client where
  "module_init =
     \<lparr>mic_queue = [], speaker_buffer = [],
      stats = \<lparr>mic_overflows = 0, speaker_underruns = 0, queue_size = 0\<rparr>,
      restart_requested = False, current_speaker = Unbound, current_line_buffer = [],
      ws_sent = [], ws_up = True, console = []\<rparr>"

subsection \<open>Device callbacks\<close>

text \<open>
  The \<open>status\<close> argument of a callback is a set of flags, true as a condition when
  any flag is set.
\<close>

record callback_flags =
  input_underflow :: bool
  input_overflow :: bool
  output_underflow :: bool
  output_overflow :: bool
  priming_output :: bool

definition flags_set :: "callback_flags \<Rightarrow> bool" where
  "flags_set st \<longleftrightarrow>
     input_underflow st \<or> input_overflow st \<or> output_underflow st \<or> output_overflow st
     \<or> priming_output st"

definition no_flags :: callback_flags where
  "no_flags =
     \<lparr>input_underflow = False, input_overflow = False, output_underflow = False,
      output_overflow = False, priming_output = False\<rparr>"

text \<open>
  \<open>indata\<close> is an array of shape (frames, channels): its rows, and \<open>shape[1]\<close>.
  Line 37 takes column 0 when there are several channels and flattens otherwise.
\<close>

record indata =
  shape1 :: nat
  rows :: "sample list list"

definition mono_of :: "indata \<Rightarrow> sample list" where
  "mono_of a = (if 1 < shape1 a then map hd (rows a) else concat (rows a))"

text \<open>
  \<open>audio_callback_in\<close> (lines 30 to 47). The counter moves only under the status
  flag; a full queue is handled by \<open>get_nowait\<close> then \<open>put_nowait\<close>, and any
  exception of these two is swallowed.
\<close>

definition audio_callback_in :: "client \<Rightarrow> indata \<Rightarrow> callback_flags \<Rightarrow> client" where
  "audio_callback_in s a status =
     (let s1 = (if flags_set status \<and> input_overflow status
                then s\<lparr>stats := (stats s)\<lparr>mic_overflows := mic_overflows (stats s) + 1\<rparr>\<rparr>
                else s);
          mono = mono_of a
      in case put_nowait MAX_QUEUE_SIZE (mic_queue s1) mono of
           Inr q \<Rightarrow> s1\<lparr>mic_queue := q\<rparr>
         | Inl _ \<Rightarrow>
             (case get_nowait (mic_queue s1) of
                Inl _ \<Rightarrow> s1
              | Inr (_, q1) \<Rightarrow>
                  (case put_nowait MAX_QUEUE_SIZE q1 mono of
                     Inr q2 \<Rightarrow> s1\<lparr>mic_queue := q2\<rparr>
                   | Inl _ \<Rightarrow> s1\<lparr>mic_queue := q1\<rparr>)))"

text \<open>A run of capture callbacks, each with its array and its status.\<close>

definition capture_run :: "client \<Rightarrow> (indata \<times> callback_flags) list \<Rightarrow> client" where
  "capture_run s cs = foldl (\<lambda>s (a, st). audio_callback_in s a st) s cs"

text \<open>
  For the end-to-end scenarios: a capture array of one channel holding 100 samples of
  value \<open>i\<close>, and 25 callbacks with such arrays, no flag set.
\<close>

definition chunk100 :: "nat \<Rightarrow> indata" where
  "chunk100 i = \<lparr>shape1 = 1, rows = replicate 100 [real i]\<rparr>"

definition pushes25 :: "(indata \<times> callback_flags) list" where
  "pushes25 = map (\<lambda>i. (chunk100 i, no_flags)) [0..<25]"

text \<open>
  \<open>audio_callback_out\<close> (lines 50 to 69). The result is column 0 of \<open>outdata\<close>
  after the call, and the new state. With \<open>frames\<close> items or more in the buffer the
  first loop pops \<open>frames\<close> of them; otherwise the second pops all that is there and
  the rest of the column is set to 0.
\<close>

definition audio_callback_out ::
  "client \<Rightarrow> nat \<Rightarrow> callback_flags \<Rightarrow> sample list \<times> client" where
  "audio_callback_out s frames status =
     (let s1 = (if flags_set status \<and> output_underflow status
                then s\<lparr>stats := (stats s)\<lparr>speaker_underruns := speaker_underruns (stats s) + 1\<rparr>\<rparr>
                else s);
          buf = speaker_buffer s1;
          (outdata, s2) =
            (if frames \<le> length buf
             then (take frames buf, s1\<lparr>speaker_buffer := drop frames buf\<rparr>)
             else
               (let available = length buf;
                    s' = s1\<lparr>speaker_buffer := []\<rparr>
                in (buf @ replicate (frames - available) 0,
                    if available < frames div 2
                    then s'\<lparr>stats := (stats s')\<lparr>speaker_underruns := speaker_underruns (stats s') + 1\<rparr>\<rparr>
                    else s')))
      in (outdata, s2\<lparr>stats := (stats s2)\<lparr>queue_size := length (speaker_buffer s2)\<rparr>\<rparr>))"

subsection \<open>Python string methods\<close>

text \<open>
  \<open>str.isspace\<close>, \<open>str.strip\<close> (no argument) and \<open>str.lower\<close> on code points
  below 256: the white space there is 9 to 13, 28 to 32, 0x85 and 0xA0; the letters with a
  lower case are A to Z and 0xC0 to 0xDE without 0xD7.
\<close>

definition py_isspace :: "char \<Rightarrow> bool" where
  "py_isspace c \<longleftrightarrow> (of_char c :: nat) \<in> {9, 10, 11, 12, 13, 28, 29, 30, 31, 32, 133, 160}"

definition py_strip :: "string \<Rightarrow> string" where
  "py_strip s = rev (dropWhile py_isspace (rev (dropWhile py_isspace s)))"

definition py_lower_char :: "char \<Rightarrow> char" where
  "py_lower_char c =
     (let n = (of_char c :: nat)
      in if (65 \<le> n \<and> n \<le> 90) \<or> (192 \<le> n \<and> n \<le> 222 \<and> n \<noteq> 215)
         then char_of (n + 32) else c)"

definition py_lower :: "string \<Rightarrow> string" where
  "py_lower s = map py_lower_char s"

subsection \<open>Opening a session\<close>

text \<open>
  Lines 139 to 153: the flag is lowered, the queue is drained one entry at a time, the
  speaker buffer is cleared and the line buffer is reset. \<open>current_speaker\<close> is not
  touched.
\<close>

fun drain_queue :: "'a list \<Rightarrow> 'a list" where
  "drain_queue [] = []"
| "drain_queue (x # q) = drain_queue q"

definition session_reset :: "client \<Rightarrow> client" where
  "session_reset s =
     s\<lparr>restart_requested := False, mic_queue := drain_queue (mic_queue s),
       speaker_buffer := [], current_line_buffer := []\<rparr>"

definition session_config :: config where
  "session_config =
     \<lparr>voice_prompt = ''NATF0.pt'', text_prompt = ''You are a helpful assistant.'', seed = - 1\<rparr>"

text \<open>
  \<open>ws.recv()\<close> returns a message or raises. The session then runs its activities
  (line 182 onwards), or leaves the session loop by \<open>break\<close> (line 180), or an
  exception reaches the handler of line 328.
\<close>

datatype recv_result = RecvRaises | Recv ws_msg

datatype open_result = RunActivities | LeaveLoop | FatalError py_error

text \<open>Lines 162 to 180, after the reset: send the configuration, wait for one message.\<close>

definition open_session :: "client \<Rightarrow> recv_result \<Rightarrow> open_result \<times> client" where
  "open_session s0 r =
     (let s = session_reset s0
      in if \<not> ws_up s then (FatalError ConnectionClosed, s)
         else
           (let s1 = s\<lparr>ws_sent := ws_sent s @ [SendJson session_config]\<rparr>
            in case r of
                 RecvRaises \<Rightarrow> (FatalError ConnectionClosed, s1)
               | Recv (TextMsg _) \<Rightarrow> (RunActivities, s1)
               | Recv (BytesMsg []) \<Rightarrow> (RunActivities, s1)
               | Recv (BytesMsg (b # _)) \<Rightarrow>
                   (if b = 0x00
                    then (RunActivities, s1\<lparr>console := console s1 @ [''Handshake received! Ready to talk!'']\<rparr>)
                    else (LeaveLoop, s1\<lparr>console := console s1 @ [''Unexpected first byte'']\<rparr>))))"

subsection \<open>Sender\<close>

text \<open>
  Lines 194 to 196: every chunk of the queue is appended to \<open>accumulated\<close>, oldest
  first.
\<close>

fun drain_into :: "'a list \<Rightarrow> 'a list list \<Rightarrow> 'a list" where
  "drain_into acc [] = acc"
| "drain_into acc (chunk # q) = drain_into (acc @ chunk) q"

text \<open>
  Lines 199 to 208: while \<open>accumulated\<close> holds a full frame, its first
  \<open>FRAME_SIZE\<close> samples are sliced off and handed to the encoder. The result is the
  frames handed over, in order, and what is left of \<open>accumulated\<close>. Encoding and
  sending are the codec's and the transport's business and are taken to succeed; an
  exception there ends the activity (line 212).
\<close>

function send_frames :: "'a list \<Rightarrow> 'a list list \<times> 'a list" where
  "send_frames acc =
     (if FRAME_SIZE \<le> length acc
      then (let (fs, r) = send_frames (drop FRAME_SIZE acc) in (take FRAME_SIZE acc # fs, r))
      else ([], acc))"
  by pat_completeness auto
termination
  by (relation "measure length") (auto simp: FRAME_SIZE_def)

declare send_frames.simps [simp del]

text \<open>
  The outer loop (lines 191 to 210), one list of chunks for each poll: what the poll
  finds in the queue.
\<close>

fun send_polls :: "'a list \<Rightarrow> 'a list list list \<Rightarrow> 'a list list \<times> 'a list" where
  "send_polls acc [] = ([], acc)"
| "send_polls acc (q # qs) =
     (let (fs, r) = send_frames (drain_into acc q);
          (fs', r') = send_polls r qs
      in (fs @ fs', r'))"

text \<open>\<open>send_audio\<close> starts from the empty array (line 188).\<close>

definition send_audio :: "'a list list list \<Rightarrow> 'a list list \<times> 'a list" where
  "send_audio qs = send_polls [] qs"

subsection \<open>Receiver\<close>

text \<open>Lines 251 to 254: the buffer is cleared when it holds more than two seconds.\<close>

definition speaker_extend :: "sample list \<Rightarrow> sample list \<Rightarrow> sample list" where
  "speaker_extend buf pcm =
     deque_extend SPEAKER_MAXLEN (if SAMPLE_RATE * 2 < length buf then [] else buf) pcm"

text \<open>Line 240: the mean of the absolute values.\<close>

definition volume :: "sample list \<Rightarrow> real" where
  "volume pcm = sum_list (map abs pcm) / real (length pcm)"

text \<open>How one pass through a loop body ends.\<close>

datatype flow = Continue | Break | Raise py_error

text \<open>
  The body of the loop of \<open>receive_responses\<close> (lines 223 to 267) for one message.
  \<open>opus_read\<close> stands for \<open>append_bytes\<close> followed by \<open>read_pcm\<close> on the
  session's Opus reader, whose state is \<open>d\<close>; \<open>utf8\<close> for
  \<open>bytes.decode("utf-8")\<close>, \<open>None\<close> when it raises. A read of
  \<open>current_speaker\<close> raises \<open>NameError\<close> while the name is not bound; line 241
  reads it only when the volume is above the threshold.
\<close>

definition receive_message ::
  "('d \<Rightarrow> byte list \<Rightarrow> py_error + ('d \<times> sample list)) \<Rightarrow> (byte list \<Rightarrow> string option) \<Rightarrow>
   client \<times> 'd \<Rightarrow> ws_msg \<Rightarrow> flow \<times> client \<times> 'd" where
  "receive_message opus_read utf8 sd message =
     (let (s, d) = sd
      in if restart_requested s then (Break, s, d)
         else case message of
           TextMsg _ \<Rightarrow> (Continue, s, d)
         | BytesMsg [] \<Rightarrow> (Continue, s, d)
         | BytesMsg (msg_type # payload) \<Rightarrow>
             if msg_type = 0x00 then
               (Continue, s\<lparr>console := console s @ [''Restart handshake received! Session restarted!'']\<rparr>, d)
             else if msg_type = 0x01 then
               (case opus_read d payload of
                  Inl e \<Rightarrow> (Raise e, s, d)
                | Inr (d', pcm) \<Rightarrow>
                    if 0 < length pcm then
                      (if 1 / 100 < volume pcm then
                         (case current_speaker s of
                            Unbound \<Rightarrow> (Raise (NameError ''current_speaker''), s, d')
                          | Bound sp \<Rightarrow>
                              (let s1 =
                                 (if sp \<noteq> Some ''AI'' then
                                    (let s0 =
                                       (if current_line_buffer s \<noteq> []
                                        then s\<lparr>console := console s @ [concat (current_line_buffer s)],
                                               current_line_buffer := []\<rparr>
                                        else s)
                                     in s0\<lparr>current_speaker := Bound (Some ''AI''),
                                           console := console s0 @ [''AI: '']\<rparr>)
                                  else s)
                               in (Continue,
                                   s1\<lparr>speaker_buffer := speaker_extend (speaker_buffer s1) pcm\<rparr>, d')))
                       else
                         (Continue, s\<lparr>speaker_buffer := speaker_extend (speaker_buffer s) pcm\<rparr>, d'))
                    else (Continue, s, d'))
             else if msg_type = 0x02 then
               (case utf8 payload of
                  None \<Rightarrow> (Raise UnicodeDecodeError, s, d)
                | Some text \<Rightarrow>
                    if py_strip text \<noteq> [] then
                      (case current_speaker s of
                         Unbound \<Rightarrow> (Raise (NameError ''current_speaker''), s, d)
                       | Bound sp \<Rightarrow>
                           (let s1 =
                              (if sp = None
                               then s\<lparr>current_speaker := Bound (Some ''AI''),
                                      console := console s @ [''AI: '']\<rparr>
                               else s)
                            in (Continue,
                                s1\<lparr>current_line_buffer := current_line_buffer s1 @ [text],
                                   console := console s1 @ [text]\<rparr>, d)))
                    else (Continue, s, d))
             else (Continue, s, d))"

text \<open>
  \<open>receive_responses\<close> (lines 221 to 271) on the messages that arrive until the
  connection closes. An exception ends the loop, and is reported unless the flag is up.
\<close>

fun receive_responses ::
  "('d \<Rightarrow> byte list \<Rightarrow> py_error + ('d \<times> sample list)) \<Rightarrow> (byte list \<Rightarrow> string option) \<Rightarrow>
   client \<times> 'd \<Rightarrow> ws_msg list \<Rightarrow> client \<times> 'd" where
  "receive_responses opus_read utf8 sd [] = sd"
| "receive_responses opus_read utf8 sd (message # rest) =
     (case receive_message opus_read utf8 sd message of
        (Continue, sd') \<Rightarrow> receive_responses opus_read utf8 sd' rest
      | (Break, sd') \<Rightarrow> sd'
      | (Raise e, s', d') \<Rightarrow>
          (if restart_requested s' then (s', d')
           else (s'\<lparr>console := console s' @ [''Receive error'']\<rparr>, d')))"

subsection \<open>Command monitor\<close>

text \<open>
  What one \<open>wait_for(reader.readline(), 0.5)\<close> followed by \<open>line.decode()\<close> gives:
  a timeout, bytes that do not decode, or the decoded line.
\<close>

datatype stdin_event = Timeout | Undecodable | Line string

text \<open>A pass through the loop of \<open>monitor_input\<close> goes on, or the function returns.\<close>

datatype monitor_flow = Again | Return bool

definition unknown_notice :: "string \<Rightarrow> string" where
  "unknown_notice command =
     ''Unknown command: '' @ [CHR 0x27] @ command @ [CHR 0x27] @ ''. Use '' @ [CHR 0x27]
     @ ''restart'' @ [CHR 0x27] @ '' or '' @ [CHR 0x27] @ ''quit'' @ [CHR 0x27]"

text \<open>
  The body of the loop (lines 283 to 304). An exception (bytes that do not decode, a send
  on a closed connection) is reported and leaves the loop for the \<open>return True\<close> of
  line 306.
\<close>

definition monitor_command :: "client \<Rightarrow> stdin_event \<Rightarrow> monitor_flow \<times> client" where
  "monitor_command s ev =
     (case ev of
        Timeout \<Rightarrow> (Again, s)
      | Undecodable \<Rightarrow> (Return True, s\<lparr>console := console s @ [''Input error'']\<rparr>)
      | Line line \<Rightarrow>
          (let command = py_lower (py_strip line)
           in if command = ''restart'' then
                (let s1 = s\<lparr>console := console s @ [''Restart requested! Restarting conversation...''],
                            restart_requested := True\<rparr>
                 in if ws_up s1
                    then (Return True, s1\<lparr>ws_sent := ws_sent s1 @ [SendBytes [0x03, 0x03]]\<rparr>)
                    else (Return True, s1\<lparr>console := console s1 @ [''Input error'']\<rparr>))
              else if command = ''quit'' then
                (Return False,
                 s\<lparr>console := console s @ [''Quit requested!''], restart_requested := True\<rparr>)
              else if command \<noteq> [] then
                (Again, s\<lparr>console := console s @ [unknown_notice command]\<rparr>)
              else (Again, s)))"

text \<open>
  \<open>monitor_input\<close> (lines 282 to 306) on a list of events; \<open>None\<close> when the events
  run out with the loop still going.
\<close>

fun monitor_input :: "client \<Rightarrow> stdin_event list \<Rightarrow> bool option \<times> client" where
  "monitor_input s [] = (if restart_requested s then (Some True, s) else (None, s))"
| "monitor_input s (ev # evs) =
     (if restart_requested s then (Some True, s)
      else case monitor_command s ev of
             (Again, s') \<Rightarrow> monitor_input s' evs
           | (Return b, s') \<Rightarrow> (Some b, s'))"

subsection \<open>Stand-ins for the collaborators, for concrete runs\<close>

text \<open>
  The codec and the text decoder are arguments of the receiver. For runs on concrete
  messages: a reader without state that makes one sample of each payload byte (the byte
  over 255), and a text decoder for payloads of 7-bit bytes, where UTF-8 is the identity,
  that rejects the others.
\<close>

definition byte_reader :: "unit \<Rightarrow> byte list \<Rightarrow> py_error + (unit \<times> sample list)" where
  "byte_reader d payload = Inr (d, map (\<lambda>b. real (unat b) / 255) payload)"

definition ascii_text :: "byte list \<Rightarrow> string option" where
  "ascii_text payload =
     (if list_all (\<lambda>b. unat b < 128) payload then Some (map (\<lambda>b. char_of (unat b)) payload)
      else None)"

section \<open>Properties\<close>

subsection \<open>Capture queue\<close>

lemma audio_callback_in_queue:
  "mic_queue (audio_callback_in s a st) =
     (if length (mic_queue s) < MAX_QUEUE_SIZE then mic_queue s @ [mono_of a]
      else if length (mic_queue s) = MAX_QUEUE_SIZE then tl (mic_queue s) @ [mono_of a]
      else tl (mic_queue s))"
  by (cases "mic_queue s")
     (auto simp: audio_callback_in_def put_nowait_def get_nowait_def MAX_QUEUE_SIZE_def Let_def)

lemma audio_callback_in_counter:
  "mic_overflows (stats (audio_callback_in s a st)) =
     mic_overflows (stats s) + (if input_overflow st then 1 else 0)"
  by (auto simp: audio_callback_in_def flags_set_def Let_def split: sum.splits prod.splits)

lemma audio_callback_in_frame:
  "audio_callback_in s a st =
     s\<lparr>mic_queue := mic_queue (audio_callback_in s a st),
       stats := (stats s)\<lparr>mic_overflows := mic_overflows (stats (audio_callback_in s a st))\<rparr>\<rparr>"
  by (auto simp: audio_callback_in_def flags_set_def Let_def split: sum.splits prod.splits)

lemma capture_run_snoc:
  "capture_run s (cs @ [(a, st)]) = audio_callback_in (capture_run s cs) a st"
  by (simp add: capture_run_def)

lemma capture_run_bounded:
  "length (mic_queue s) \<le> MAX_QUEUE_SIZE \<Longrightarrow> length (mic_queue (capture_run s cs)) \<le> MAX_QUEUE_SIZE"
proof (induction cs rule: rev_induct)
  case Nil
  then show ?case by (simp add: capture_run_def)
next
  case (snoc c cs)
  obtain a st where c: "c = (a, st)" by (cases c)
  from snoc have "length (mic_queue (capture_run s cs)) \<le> MAX_QUEUE_SIZE" by simp
  then show ?case
    unfolding c capture_run_snoc audio_callback_in_queue
    by (auto simp: MAX_QUEUE_SIZE_def)
qed

lemma capture_run_queue:
  "length (mic_queue s) \<le> MAX_QUEUE_SIZE \<Longrightarrow>
   mic_queue (capture_run s cs) =
     drop (length (mic_queue s) + length cs - MAX_QUEUE_SIZE)
       (mic_queue s @ map (\<lambda>c. mono_of (fst c)) cs)"
proof (induction cs rule: rev_induct)
  case Nil
  then show ?case by (simp add: capture_run_def)
next
  case (snoc c cs)
  obtain a st where c: "c = (a, st)" by (cases c)
  let ?q = "mic_queue (capture_run s cs)"
  let ?all = "mic_queue s @ map (\<lambda>c. mono_of (fst c)) cs"
  let ?n = "length (mic_queue s) + length cs"
  have ih: "?q = drop (?n - MAX_QUEUE_SIZE) ?all"
    using snoc by simp
  have "length ?q = length ?all - (?n - MAX_QUEUE_SIZE)"
    by (subst ih) (rule length_drop)
  then have len: "length ?q = ?n - (?n - MAX_QUEUE_SIZE)"
    by simp
  show ?case
  proof (cases "?n < MAX_QUEUE_SIZE")
    case True
    with len have "length ?q < MAX_QUEUE_SIZE" by simp
    moreover from True ih have "?q = ?all" by simp
    ultimately show ?thesis
      unfolding c capture_run_snoc audio_callback_in_queue using True by simp
  next
    case False
    with len have eq: "length ?q = MAX_QUEUE_SIZE" by simp
    have "tl ?q = drop (Suc (?n - MAX_QUEUE_SIZE)) ?all"
      by (subst ih) (simp only: drop_Suc tl_drop)
    moreover have "Suc (?n - MAX_QUEUE_SIZE) = Suc ?n - MAX_QUEUE_SIZE"
      using False by simp
    moreover have "Suc ?n - MAX_QUEUE_SIZE \<le> length ?all"
      by (simp add: MAX_QUEUE_SIZE_def)
    ultimately show ?thesis
      unfolding c capture_run_snoc audio_callback_in_queue using eq
      by simp
  qed
qed

lemma capture_run_counter:
  "mic_overflows (stats (capture_run s cs)) =
     mic_overflows (stats s) + length (filter (\<lambda>c. input_overflow (snd c)) cs)"
proof (induction cs rule: rev_induct)
  case Nil
  then show ?case by (simp add: capture_run_def)
next
  case (snoc c cs)
  obtain a st where c: "c = (a, st)" by (cases c)
  show ?case
    unfolding c capture_run_snoc audio_callback_in_counter using snoc by simp
qed

lemma mono_chunk100: "mono_of (chunk100 i) = replicate 100 (real i)"
  by (simp add: mono_of_def chunk100_def)

text \<open>
  Claim C5. Whatever the sequence of capture callbacks, a queue that held at most
  \<open>MAX_QUEUE_SIZE\<close> (10) entries holds at most 10 after them, and after each single
  one; a callback that finds the queue full removes the oldest entry and puts the new
  chunk last, and otherwise the new chunk is put last with nothing removed. The new
  chunk is never the one dropped.
\<close>

theorem capture_queue_bounded_drop_oldest:
  "length (mic_queue s) \<le> MAX_QUEUE_SIZE \<Longrightarrow>
     MAX_QUEUE_SIZE = 10 \<and>
     length (mic_queue (capture_run s cs)) \<le> MAX_QUEUE_SIZE \<and>
     length (mic_queue (audio_callback_in s a st)) \<le> MAX_QUEUE_SIZE \<and>
     mic_queue (audio_callback_in s a st) =
       (if length (mic_queue s) = MAX_QUEUE_SIZE then tl (mic_queue s) @ [mono_of a]
        else mic_queue s @ [mono_of a])"
proof -
  assume b: "length (mic_queue s) \<le> MAX_QUEUE_SIZE"
  have "length (mic_queue (capture_run s cs)) \<le> MAX_QUEUE_SIZE"
    using b by (rule capture_run_bounded)
  moreover have "length (mic_queue (capture_run s [(a, st)])) \<le> MAX_QUEUE_SIZE"
    using b by (rule capture_run_bounded)
  then have "length (mic_queue (audio_callback_in s a st)) \<le> MAX_QUEUE_SIZE"
    by (simp add: capture_run_def)
  moreover have "mic_queue (audio_callback_in s a st) =
       (if length (mic_queue s) = MAX_QUEUE_SIZE then tl (mic_queue s) @ [mono_of a]
        else mic_queue s @ [mono_of a])"
    using b by (simp add: audio_callback_in_queue)
  ultimately show ?thesis by (simp add: MAX_QUEUE_SIZE_def)
qed

theorem capture_queue_bounded_drop_oldest_witness:
  "length (mic_queue (module_init\<lparr>mic_queue := replicate 10 [0]\<rparr>)) \<le> MAX_QUEUE_SIZE \<and>
   mic_queue (audio_callback_in (module_init\<lparr>mic_queue := replicate 10 [0]\<rparr>) (chunk100 7) no_flags)
     = replicate 9 [0] @ [replicate 100 7] \<and>
   length (mic_queue (capture_run (module_init\<lparr>mic_queue := replicate 10 [0]\<rparr>) pushes25)) \<le> 10"
  using capture_queue_bounded_drop_oldest
    [of "module_init\<lparr>mic_queue := replicate 10 [0]\<rparr>" pushes25 "chunk100 7" no_flags]
  by (simp add: MAX_QUEUE_SIZE_def mono_chunk100)

text \<open>
  Claim C2, as stated, fails: after the 25 callbacks of the scenario the last 10 chunks
  are in the queue, oldest first, but \<open>mic_overflows\<close> is not 15. No line of
  \<open>audio_callback_in\<close> counts an eviction.
\<close>

theorem capture_scenario_counterexample:
  "length pushes25 = 25 \<and>
   mic_queue (capture_run module_init pushes25) = map mono_of (map fst (drop 15 pushes25)) \<and>
   length (mic_queue (capture_run module_init pushes25)) = 10 \<and>
   mic_overflows (stats (capture_run module_init pushes25)) \<noteq> 15"
proof -
  have l: "length pushes25 = 25"
    by (simp add: pushes25_def)
  have q: "mic_queue (capture_run module_init pushes25) = map mono_of (map fst (drop 15 pushes25))"
    by (subst capture_run_queue) (simp_all add: l module_init_def MAX_QUEUE_SIZE_def drop_map)
  have "mic_overflows (stats (capture_run module_init pushes25)) = 0"
    by (simp add: capture_run_counter pushes25_def module_init_def no_flags_def)
  with l q show ?thesis by simp
qed

text \<open>
  Claim C2, amended. After 25 capture callbacks on an empty queue, the queue holds the
  chunks of the last 10, oldest first; \<open>mic_overflows\<close> has grown by the number of
  callbacks whose status had \<open>input_overflow\<close> set, and by nothing else.
\<close>

theorem capture_scenario_last_ten:
  "mic_queue s = [] \<Longrightarrow> length cs = 25 \<Longrightarrow>
     mic_queue (capture_run s cs) = map (\<lambda>c. mono_of (fst c)) (drop 15 cs) \<and>
     length (mic_queue (capture_run s cs)) = 10 \<and>
     mic_overflows (stats (capture_run s cs)) =
       mic_overflows (stats s) + length (filter (\<lambda>c. input_overflow (snd c)) cs)"
proof -
  assume e: "mic_queue s = []" and l: "length cs = 25"
  have q: "mic_queue (capture_run s cs) = map (\<lambda>c. mono_of (fst c)) (drop 15 cs)"
    by (subst capture_run_queue) (simp_all add: e l MAX_QUEUE_SIZE_def drop_map)
  then have "length (mic_queue (capture_run s cs)) = 10"
    by (simp add: l)
  with q show ?thesis
    by (simp add: capture_run_counter)
qed

theorem capture_scenario_last_ten_witness:
  "mic_queue module_init = [] \<and> length pushes25 = 25 \<and>
   mic_queue (capture_run module_init pushes25) = map (\<lambda>i. replicate 100 (real i)) [15..<25] \<and>
   mic_overflows (stats (capture_run module_init pushes25)) = 0"
  using capture_scenario_last_ten [of module_init pushes25]
  by (simp add: module_init_def pushes25_def drop_map mono_chunk100 comp_def no_flags_def)

subsection \<open>Playback\<close>

lemma audio_callback_out_fst:
  "fst (audio_callback_out s n st) =
     (if n \<le> length (speaker_buffer s) then take n (speaker_buffer s)
      else speaker_buffer s @ replicate (n - length (speaker_buffer s)) 0)"
  by (simp add: audio_callback_out_def Let_def split: prod.splits)

lemma audio_callback_out_buffer:
  "speaker_buffer (snd (audio_callback_out s n st)) = drop n (speaker_buffer s)"
  by (simp add: audio_callback_out_def Let_def split: prod.splits)

lemma audio_callback_out_underruns:
  "speaker_underruns (stats (snd (audio_callback_out s n st))) =
     speaker_underruns (stats s) + (if output_underflow st then 1 else 0)
       + (if length (speaker_buffer s) < n div 2 then 1 else 0)"
  by (auto simp: audio_callback_out_def Let_def flags_set_def split: prod.splits)

lemma half_even: "even (n::nat) \<Longrightarrow> (k < n div 2) = (n < 2 * (n - k))"
  by (auto elim!: evenE)

lemma shortfall_even:
  "even (n::nat) \<Longrightarrow> (k < n div 2) = (real n / 2 < real (n - k))"
proof -
  assume e: "even n"
  have "(real n / 2 < real (n - k)) = (real n < real (2 * (n - k)))"
    by (simp only: of_nat_mult) auto
  also have "\<dots> = (n < 2 * (n - k))"
    by (simp only: of_nat_less_iff)
  finally show ?thesis using half_even [OF e] by simp
qed

text \<open>
  Claim C7. A playback callback asking for \<open>n\<close> samples of a buffer of \<open>k\<close> gives
  the first \<open>n\<close> buffered samples when \<open>k \<ge> n\<close>, and the \<open>k\<close> buffered samples
  followed by \<open>n - k\<close> zeros otherwise; what it gave is gone from the buffer. The
  output stream is opened with the block size \<open>FRAME_SIZE\<close>, which is even; for an
  even \<open>n\<close> the shortfall path adds one to \<open>speaker_underruns\<close> exactly when the
  shortfall \<open>n - k\<close> is more than half of \<open>n\<close> (the status flag
  \<open>output_underflow\<close> adds one of its own).
\<close>

theorem playback_pop:
  "fst (audio_callback_out s n st) =
     (if n \<le> length (speaker_buffer s) then take n (speaker_buffer s)
      else speaker_buffer s @ replicate (n - length (speaker_buffer s)) 0) \<and>
   length (fst (audio_callback_out s n st)) = n \<and>
   speaker_buffer (snd (audio_callback_out s n st)) = drop n (speaker_buffer s) \<and>
   even FRAME_SIZE \<and>
   (even n \<longrightarrow>
      speaker_underruns (stats (snd (audio_callback_out s n st))) =
        speaker_underruns (stats s) + (if output_underflow st then 1 else 0)
          + (if real n / 2 < real (n - length (speaker_buffer s)) then 1 else 0))"
  by (simp add: audio_callback_out_fst audio_callback_out_buffer audio_callback_out_underruns
      shortfall_even FRAME_SIZE_def)

theorem playback_pop_witness:
  "even FRAME_SIZE \<and>
   fst (audio_callback_out (module_init\<lparr>speaker_buffer := replicate 100 1\<rparr>) FRAME_SIZE no_flags)
     = replicate 100 1 @ replicate 380 0 \<and>
   real FRAME_SIZE / 2 < real (FRAME_SIZE - 100) \<and>
   speaker_underruns (stats (snd (audio_callback_out
     (module_init\<lparr>speaker_buffer := replicate 100 1\<rparr>) FRAME_SIZE no_flags))) = 1 \<and>
   \<not> real FRAME_SIZE / 2 < real (FRAME_SIZE - 240) \<and>
   speaker_underruns (stats (snd (audio_callback_out
     (module_init\<lparr>speaker_buffer := replicate 240 1\<rparr>) FRAME_SIZE no_flags))) = 0"
  using playback_pop [of "module_init\<lparr>speaker_buffer := replicate 100 1\<rparr>" FRAME_SIZE no_flags]
    playback_pop [of "module_init\<lparr>speaker_buffer := replicate 240 1\<rparr>" FRAME_SIZE no_flags]
  by (simp add: module_init_def no_flags_def FRAME_SIZE_def)

subsection \<open>Extending the speaker buffer\<close>

lemma speaker_extend_eq:
  "speaker_extend buf pcm =
     (if SAMPLE_RATE * 2 < length buf then drop (length pcm - SPEAKER_MAXLEN) pcm
      else drop (length buf + length pcm - SPEAKER_MAXLEN) (buf @ pcm))"
  by (simp add: speaker_extend_def deque_extend_def)

lemma length_speaker_extend:
  "length (speaker_extend buf pcm) =
     min SPEAKER_MAXLEN (length (if SAMPLE_RATE * 2 < length buf then [] else buf) + length pcm)"
  by (simp add: speaker_extend_def deque_extend_def)

lemma receive_message_buffer:
  "speaker_buffer (fst (snd (receive_message opus_read utf8 (s, d) m))) = speaker_buffer s \<or>
   (\<exists>pcm. speaker_buffer (fst (snd (receive_message opus_read utf8 (s, d) m))) =
      speaker_extend (speaker_buffer s) pcm)"
  by (auto simp: receive_message_def Let_def
      split: ws_msg.splits list.splits sum.splits prod.splits global.splits option.splits)

lemma receive_message_audio:
  "\<not> restart_requested s \<Longrightarrow> opus_read d payload = Inr (d', pcm) \<Longrightarrow> pcm \<noteq> [] \<Longrightarrow>
   fst (receive_message opus_read utf8 (s, d) (BytesMsg (0x01 # payload))) = Continue \<Longrightarrow>
   speaker_buffer (fst (snd (receive_message opus_read utf8 (s, d) (BytesMsg (0x01 # payload))))) =
     speaker_extend (speaker_buffer s) pcm"
  by (auto simp: receive_message_def Let_def split: global.splits if_splits)

text \<open>
  Claim C6, as stated, fails: a buffer of depth 1, below the ceiling, extended with
  100000 samples loses its old sample, since the deque keeps 100000 items at most.
\<close>

theorem speaker_extend_counterexample:
  "length [1::real] \<le> SAMPLE_RATE * 2 \<and> replicate 100000 (0::real) \<noteq> [] \<and>
   speaker_extend [1] (replicate 100000 0) = replicate 100000 0 \<and>
   speaker_extend [1] (replicate 100000 0) \<noteq> [1] @ replicate 100000 0"
  by (simp add: speaker_extend_eq SAMPLE_RATE_def SPEAKER_MAXLEN_def)

text \<open>
  Claim C6, amended. An extend on a buffer deeper than 48000 samples clears it first,
  and the buffer then holds the new samples, all of them when they are 100000 at most;
  on a buffer of depth 48000 or less the new samples come after the old content, with
  nothing removed when old and new together are 100000 at most. Beyond 100000 the oldest
  samples are dropped. This is what the receiver does to the buffer for an audio message
  with decoded samples that it processes to the end.
\<close>

theorem speaker_extend_policy:
  "SAMPLE_RATE * 2 = 48000 \<and> SPEAKER_MAXLEN = 100000 \<and>
   speaker_extend buf pcm =
     (if SAMPLE_RATE * 2 < length buf then drop (length pcm - SPEAKER_MAXLEN) pcm
      else drop (length buf + length pcm - SPEAKER_MAXLEN) (buf @ pcm)) \<and>
   ((if SAMPLE_RATE * 2 < length buf then 0 else length buf) + length pcm \<le> SPEAKER_MAXLEN \<longrightarrow>
      speaker_extend buf pcm = (if SAMPLE_RATE * 2 < length buf then pcm else buf @ pcm)) \<and>
   (\<not> restart_requested s \<and> opus_read d payload = Inr (d', pcm) \<and> pcm \<noteq> [] \<and>
    fst (receive_message opus_read utf8 (s, d) (BytesMsg (0x01 # payload))) = Continue \<longrightarrow>
      speaker_buffer (fst (snd (receive_message opus_read utf8 (s, d) (BytesMsg (0x01 # payload))))) =
        speaker_extend (speaker_buffer s) pcm)"
  using receive_message_audio [of s opus_read d payload d' pcm utf8]
  by (simp add: speaker_extend_eq SAMPLE_RATE_def SPEAKER_MAXLEN_def)

lemma volume_silence: "volume (replicate n 0) = 0"
  by (simp add: volume_def sum_list_replicate)

lemma byte_reader_zeros: "byte_reader d (replicate n 0) = Inr (d, replicate n 0)"
  by (simp add: byte_reader_def)

lemma receive_silence:
  "\<not> restart_requested s \<Longrightarrow> 0 < n \<Longrightarrow>
   receive_message byte_reader utf8 (s, d) (BytesMsg (0x01 # replicate n 0)) =
     (Continue, s\<lparr>speaker_buffer := speaker_extend (speaker_buffer s) (replicate n 0)\<rparr>, d)"
  by (simp add: receive_message_def byte_reader_zeros volume_silence)

theorem speaker_extend_policy_witness:
  "(if SAMPLE_RATE * 2 < length (replicate (24000 * 3) (1 / 2 :: real)) then 0
    else length (replicate (24000 * 3) (1 / 2 :: real))) + length (replicate 1920 (0 :: real))
     \<le> SPEAKER_MAXLEN \<and>
   \<not> restart_requested (module_init\<lparr>speaker_buffer := replicate (24000 * 3) (1 / 2)\<rparr>) \<and>
   byte_reader () (replicate 1920 0) = Inr ((), replicate 1920 0) \<and>
   replicate 1920 (0 :: real) \<noteq> [] \<and>
   fst (receive_message byte_reader ascii_text
          (module_init\<lparr>speaker_buffer := replicate (24000 * 3) (1 / 2)\<rparr>, ())
          (BytesMsg (0x01 # replicate 1920 0))) = Continue \<and>
   speaker_buffer (fst (snd (receive_message byte_reader ascii_text
          (module_init\<lparr>speaker_buffer := replicate (24000 * 3) (1 / 2)\<rparr>, ())
          (BytesMsg (0x01 # replicate 1920 0))))) = replicate 1920 0"
  using speaker_extend_policy
    [of "replicate (24000 * 3) (1 / 2)" "replicate 1920 0"
        "module_init\<lparr>speaker_buffer := replicate (24000 * 3) (1 / 2)\<rparr>"
        byte_reader "()" "replicate 1920 0" "()" ascii_text]
  by (simp add: receive_silence byte_reader_zeros module_init_def SAMPLE_RATE_def SPEAKER_MAXLEN_def)

subsection \<open>The bound of the deque\<close>

lemma session_reset_buffer: "speaker_buffer (session_reset s) = []"
  by (simp add: session_reset_def)

lemma monitor_command_buffer:
  "speaker_buffer (snd (monitor_command s ev)) = speaker_buffer s"
  by (simp add: monitor_command_def Let_def split: stdin_event.splits)

lemma audio_callback_in_buffer:
  "speaker_buffer (audio_callback_in s a st) = speaker_buffer s"
  by (auto simp: audio_callback_in_def Let_def split: sum.splits prod.splits)

lemma open_session_buffer: "speaker_buffer (snd (open_session s r)) = []"
  by (simp add: open_session_def Let_def session_reset_def
      split: recv_result.splits ws_msg.splits list.splits)

text \<open>
  Claim C10. The buffer is empty at the start and holds 100000 samples at most after
  every operation of the client on a state where it did: a received message, a playback
  or capture callback, the opening of a session, a command. An extend keeps the last
  100000 samples of the (possibly cleared) content followed by the new samples, so what
  goes beyond the bound is dropped from the oldest end.
\<close>

theorem speaker_buffer_hard_cap:
  "length (speaker_buffer s) \<le> SPEAKER_MAXLEN \<Longrightarrow>
     SPEAKER_MAXLEN = 100000 \<and>
     speaker_buffer module_init = [] \<and>
     length (speaker_buffer (fst (snd (receive_message opus_read utf8 (s, d) m)))) \<le> SPEAKER_MAXLEN \<and>
     length (speaker_buffer (snd (audio_callback_out s n st))) \<le> SPEAKER_MAXLEN \<and>
     length (speaker_buffer (audio_callback_in s a st')) \<le> SPEAKER_MAXLEN \<and>
     length (speaker_buffer (snd (open_session s r))) \<le> SPEAKER_MAXLEN \<and>
     length (speaker_buffer (snd (monitor_command s ev))) \<le> SPEAKER_MAXLEN \<and>
     length (speaker_extend buf pcm) =
       min SPEAKER_MAXLEN ((if SAMPLE_RATE * 2 < length buf then 0 else length buf) + length pcm) \<and>
     speaker_extend buf pcm =
       (if SAMPLE_RATE * 2 < length buf then drop (length pcm - SPEAKER_MAXLEN) pcm
        else drop (length buf + length pcm - SPEAKER_MAXLEN) (buf @ pcm))"
proof -
  assume b: "length (speaker_buffer s) \<le> SPEAKER_MAXLEN"
  have "length (speaker_buffer (fst (snd (receive_message opus_read utf8 (s, d) m)))) \<le> SPEAKER_MAXLEN"
    using receive_message_buffer [of opus_read utf8 s d m] b
    by (auto simp: length_speaker_extend)
  moreover have "length (speaker_buffer (snd (audio_callback_out s n st))) \<le> SPEAKER_MAXLEN"
    using b by (simp add: audio_callback_out_buffer)
  moreover have "length (speaker_extend buf pcm) =
       min SPEAKER_MAXLEN ((if SAMPLE_RATE * 2 < length buf then 0 else length buf) + length pcm)"
    by (simp add: length_speaker_extend)
  ultimately show ?thesis
    using b
    by (simp add: audio_callback_in_buffer open_session_buffer monitor_command_buffer
        speaker_extend_eq module_init_def SPEAKER_MAXLEN_def)
qed

theorem speaker_buffer_hard_cap_witness:
  "length (speaker_buffer (module_init\<lparr>speaker_buffer := replicate 48000 (1 / 2)\<rparr>)) \<le> SPEAKER_MAXLEN \<and>
   length (speaker_buffer (fst (snd (receive_message byte_reader ascii_text
          (module_init\<lparr>speaker_buffer := replicate 48000 (1 / 2)\<rparr>, ())
          (BytesMsg (0x01 # replicate 60000 0)))))) = 100000 \<and>
   speaker_extend (replicate 48000 (1 / 2)) (replicate 60000 0)
     = replicate 40000 (1 / 2) @ replicate 60000 0"
  using speaker_buffer_hard_cap
    [of "module_init\<lparr>speaker_buffer := replicate 48000 (1 / 2)\<rparr>" byte_reader ascii_text "()"
        "BytesMsg (0x01 # replicate 60000 0)" 0 no_flags "chunk100 0" no_flags RecvRaises Timeout
        "replicate 48000 (1 / 2)" "replicate 60000 0"]
  by (simp add: receive_silence module_init_def SAMPLE_RATE_def SPEAKER_MAXLEN_def
      length_speaker_extend speaker_extend_eq)

subsection \<open>Receiver: the first audio chunk\<close>

lemma receive_loud_unbound:
  "\<not> restart_requested s \<Longrightarrow> current_speaker s = Unbound \<Longrightarrow>
   opus_read d payload = Inr (d', pcm) \<Longrightarrow> pcm \<noteq> [] \<Longrightarrow> 1 / 100 < volume pcm \<Longrightarrow>
   receive_message opus_read utf8 (s, d) (BytesMsg (0x01 # payload)) =
     (Raise (NameError ''current_speaker''), s, d')"
  by (simp add: receive_message_def)

lemma receive_message_speaker:
  "current_speaker s = Unbound \<Longrightarrow>
   current_speaker (fst (snd (receive_message opus_read utf8 (s, d) m))) = Unbound"
  by (auto simp: receive_message_def Let_def
      split: ws_msg.splits list.splits sum.splits prod.splits global.splits option.splits)

lemma receive_responses_speaker:
  "current_speaker (fst sd) = Unbound \<Longrightarrow>
   current_speaker (fst (receive_responses opus_read utf8 sd ms)) = Unbound"
proof (induction ms arbitrary: sd)
  case Nil
  then show ?case by simp
next
  case (Cons m ms)
  obtain s d where sd: "sd = (s, d)" by (cases sd)
  obtain fl s' d' where r: "receive_message opus_read utf8 (s, d) m = (fl, s', d')"
    by (cases "receive_message opus_read utf8 (s, d) m")
  have u: "current_speaker s' = Unbound"
    using receive_message_speaker [of s opus_read utf8 d m] Cons.prems r sd by simp
  show ?case
  proof (cases fl)
    case Continue
    with Cons.IH [of "(s', d')"] u r sd show ?thesis by simp
  next
    case Break
    with u r sd show ?thesis by simp
  next
    case (Raise e)
    with u r sd show ?thesis by simp
  qed
qed

text \<open>
  Claim C3 against the code. \<open>current_speaker\<close> is not bound when the module is
  loaded and opening a session does not bind it. On a running receiver, an audio message
  whose decoded samples are not empty and louder than the threshold then raises
  \<open>NameError\<close> at the read of \<open>current_speaker\<close>: nothing is appended to the
  speaker buffer, the error is reported and the receiver ends, whatever messages follow.
\<close>

theorem first_audio_chunk_raises:
  "\<not> restart_requested s \<Longrightarrow> current_speaker s = Unbound \<Longrightarrow>
   opus_read d payload = Inr (d', pcm) \<Longrightarrow> pcm \<noteq> [] \<Longrightarrow> 1 / 100 < volume pcm \<Longrightarrow>
     current_speaker module_init = Unbound \<and>
     current_speaker (snd (open_session s0 r)) = current_speaker s0 \<and>
     receive_message opus_read utf8 (s, d) (BytesMsg (0x01 # payload)) =
       (Raise (NameError ''current_speaker''), s, d') \<and>
     receive_responses opus_read utf8 (s, d) (BytesMsg (0x01 # payload) # rest) =
       (s\<lparr>console := console s @ [''Receive error'']\<rparr>, d')"
proof -
  assume a: "\<not> restart_requested s" "current_speaker s = Unbound"
    "opus_read d payload = Inr (d', pcm)" "pcm \<noteq> []" "1 / 100 < volume pcm"
  have "receive_message opus_read utf8 (s, d) (BytesMsg (0x01 # payload)) =
       (Raise (NameError ''current_speaker''), s, d')"
    using a by (rule receive_loud_unbound)
  moreover have "current_speaker (snd (open_session s0 r)) = current_speaker s0"
    by (simp add: open_session_def Let_def session_reset_def
        split: recv_result.splits ws_msg.splits list.splits)
  ultimately show ?thesis
    using a(1) by (simp add: module_init_def)
qed

lemma volume_half: "volume [128 / 255] = 128 / 255"
  by (simp add: volume_def)

theorem first_audio_chunk_raises_witness:
  "\<not> restart_requested (snd (open_session module_init (Recv (BytesMsg [0x00])))) \<and>
   current_speaker (snd (open_session module_init (Recv (BytesMsg [0x00])))) = Unbound \<and>
   byte_reader () [128] = Inr ((), [128 / 255]) \<and> [128 / 255 :: real] \<noteq> [] \<and>
   1 / 100 < volume [128 / 255] \<and>
   fst (receive_message byte_reader ascii_text
          (snd (open_session module_init (Recv (BytesMsg [0x00]))), ())
          (BytesMsg [0x01, 128])) = Raise (NameError ''current_speaker'') \<and>
   speaker_buffer (fst (receive_responses byte_reader ascii_text
          (snd (open_session module_init (Recv (BytesMsg [0x00]))), ())
          [BytesMsg [0x01, 128], BytesMsg [0x01, 128]])) = []"
  using first_audio_chunk_raises
    [of "snd (open_session module_init (Recv (BytesMsg [0x00])))" byte_reader "()" "[128]" "()"
        "[128 / 255]" module_init "Recv (BytesMsg [0x00])" ascii_text "[BytesMsg [0x01, 128]]"]
  by (simp add: open_session_def session_reset_def module_init_def byte_reader_def volume_half
      Let_def)

subsection \<open>Receiver: malformed messages\<close>

lemma receive_message_malformed:
  "m = TextMsg t \<or> m = BytesMsg [] \<or>
     (m = BytesMsg (tag # payload) \<and> tag \<notin> {0x00, 0x01, 0x02, 0x03}) \<Longrightarrow>
   receive_message opus_read utf8 (s, d) m = (if restart_requested s then Break else Continue, s, d)"
  by (auto simp: receive_message_def)

lemma receive_responses_flag_up:
  "restart_requested (fst sd) \<Longrightarrow> receive_responses opus_read utf8 sd ms = sd"
  by (cases ms; cases sd) (simp_all add: receive_message_def)

lemma receive_responses_skip:
  assumes "\<And>s d. receive_message opus_read utf8 (s, d) m =
                  (if restart_requested s then Break else Continue, s, d)"
  shows "receive_responses opus_read utf8 sd (before @ m # after) =
         receive_responses opus_read utf8 sd (before @ after)"
proof (induction before arbitrary: sd)
  case Nil
  obtain s d where sd: "sd = (s, d)" by (cases sd)
  show ?case
  proof (cases "restart_requested s")
    case True
    then show ?thesis
      using assms [of s d] receive_responses_flag_up [of "(s, d)" opus_read utf8 after]
      by (simp add: sd)
  next
    case False
    then show ?thesis using assms [of s d] by (simp add: sd)
  qed
next
  case (Cons b before)
  obtain fl sd' where r: "receive_message opus_read utf8 sd b = (fl, sd')"
    by (cases "receive_message opus_read utf8 sd b")
  show ?case
    using Cons.IH [of sd'] r by (cases fl) (simp_all split: prod.splits)
qed

text \<open>
  Claim C8. A received message that is a text frame, or empty, or whose first byte is not
  0x00, 0x01, 0x02 or 0x03 leaves the client state and the reader state as they were and
  raises nothing (the loop goes on, or breaks when the restart flag is up, as for any
  message); and the receiver ends in the same state with such a message anywhere among
  the messages as without it.
\<close>

theorem malformed_message_dropped:
  "m = TextMsg t \<or> m = BytesMsg [] \<or>
     (m = BytesMsg (tag # payload) \<and> tag \<notin> {0x00, 0x01, 0x02, 0x03}) \<Longrightarrow>
   receive_message opus_read utf8 (s, d) m = (if restart_requested s then Break else Continue, s, d) \<and>
   receive_responses opus_read utf8 sd (before @ m # after) =
     receive_responses opus_read utf8 sd (before @ after)"
proof -
  assume a: "m = TextMsg t \<or> m = BytesMsg [] \<or>
     (m = BytesMsg (tag # payload) \<and> tag \<notin> {0x00, 0x01, 0x02, 0x03})"
  have "\<And>s d. receive_message opus_read utf8 (s, d) m =
                  (if restart_requested s then Break else Continue, s, d)"
    using a by (rule receive_message_malformed)
  then show ?thesis
    using receive_responses_skip [of opus_read utf8 m sd before after] by simp
qed

theorem malformed_message_dropped_witness:
  "(0x07 :: byte) \<notin> {0x00, 0x01, 0x02, 0x03} \<and>
   receive_message byte_reader ascii_text (module_init, ()) (BytesMsg [0x07, 1, 2]) =
     (Continue, module_init, ()) \<and>
   speaker_buffer (fst (receive_responses byte_reader ascii_text (module_init, ())
     ([BytesMsg [0x00]] @ BytesMsg [0x07, 1, 2] # [BytesMsg [0x01, 0, 0]]))) = [0, 0]"
  using malformed_message_dropped
    [of "BytesMsg [0x07, 1, 2]" "[]" "0x07" "[1, 2]" byte_reader ascii_text module_init "()"
        "(module_init, ())" "[BytesMsg [0x00]]" "[BytesMsg [0x01, 0, 0]]"]
  by (simp add: module_init_def receive_message_def byte_reader_def volume_def
      speaker_extend_def deque_extend_def SAMPLE_RATE_def SPEAKER_MAXLEN_def)

subsection \<open>Command monitor\<close>

lemma py_isspace_lower: "py_isspace (py_lower_char c) = py_isspace c"
  by (auto simp: py_isspace_def py_lower_char_def Let_def)

lemma py_lower_char_idem: "py_lower_char (py_lower_char c) = py_lower_char c"
  by (simp add: py_lower_char_def Let_def)

lemma py_lower_idem: "py_lower (py_lower s) = py_lower s"
  by (simp add: py_lower_def py_lower_char_idem)

lemma dropWhile_space_lower:
  "dropWhile py_isspace (map py_lower_char xs) = map py_lower_char (dropWhile py_isspace xs)"
  by (simp add: dropWhile_map comp_def py_isspace_lower)

lemma py_strip_lower: "py_strip (py_lower s) = py_lower (py_strip s)"
  by (simp add: py_strip_def py_lower_def dropWhile_space_lower rev_map)

lemma strip_right_prefix: "\<exists>ws. ys = rev (dropWhile P (rev ys)) @ ws"
proof -
  have "rev (dropWhile P (rev ys)) @ rev (takeWhile P (rev ys)) =
        rev (takeWhile P (rev ys) @ dropWhile P (rev ys))"
    by (simp only: rev_append)
  also have "\<dots> = rev (rev ys)" by (simp only: takeWhile_dropWhile_id)
  also have "\<dots> = ys" by simp
  finally have "ys = rev (dropWhile P (rev ys)) @ rev (takeWhile P (rev ys))" by (rule sym)
  then show ?thesis ..
qed

lemma py_strip_idem: "py_strip (py_strip s) = py_strip s"
proof -
  let ?ys = "dropWhile py_isspace s"
  let ?zs = "rev (dropWhile py_isspace (rev ?ys))"
  have "dropWhile py_isspace ?zs = ?zs"
  proof (cases "?zs = []")
    case True
    show ?thesis by (simp only: True dropWhile.simps)
  next
    case False
    obtain ws where w: "?ys = ?zs @ ws" using strip_right_prefix [of ?ys py_isspace] by blast
    with False have "hd ?zs = hd ?ys" by (metis hd_append2)
    moreover have "?ys \<noteq> []"
    proof
      assume "?ys = []"
      then have "?zs = []" by (simp only: rev.simps dropWhile.simps)
      with False show False ..
    qed
    then have "\<not> py_isspace (hd ?ys)" by (rule hd_dropWhile)
    ultimately have "\<not> py_isspace (hd ?zs)" by simp
    then show ?thesis by (simp add: dropWhile_eq_self_iff)
  qed
  then show ?thesis by (simp add: py_strip_def)
qed

lemma command_idem: "py_lower (py_strip (py_lower (py_strip s))) = py_lower (py_strip s)"
  by (simp add: py_strip_lower py_strip_idem py_lower_idem)

lemma command_restart: "py_lower (py_strip ''Restart\<newline>'') = ''restart''"
  by code_simp

lemma command_quit: "py_lower (py_strip ''  quit  '') = ''quit''"
  by code_simp

lemma command_foo: "py_lower (py_strip ''foo'') = ''foo''"
  by code_simp

text \<open>
  Claim C9. A line is matched through its stripped, lower-cased form: the monitor does
  with a line what it does with that form. \<open>Restart\<close> followed by a newline sets
  \<open>restart_requested\<close>, sends the bytes 0x03 0x03 (when the transport takes them) and
  returns \<open>True\<close>; \<open>quit\<close> between blanks sets \<open>restart_requested\<close> and returns
  \<open>False\<close>; \<open>foo\<close>, and every line whose form is not empty and is neither command,
  prints the unknown-command notice, changes nothing else and lets the loop go on.
\<close>

theorem command_parsing:
  "monitor_command s (Line line) = monitor_command s (Line (py_lower (py_strip line))) \<and>
   monitor_command s (Line ''Restart\<newline>'') =
     (Return True,
      if ws_up s
      then s\<lparr>console := console s @ [''Restart requested! Restarting conversation...''],
             restart_requested := True, ws_sent := ws_sent s @ [SendBytes [0x03, 0x03]]\<rparr>
      else s\<lparr>console := console s @ [''Restart requested! Restarting conversation...'', ''Input error''],
             restart_requested := True\<rparr>) \<and>
   monitor_command s (Line ''  quit  '') =
     (Return False, s\<lparr>console := console s @ [''Quit requested!''], restart_requested := True\<rparr>) \<and>
   monitor_command s (Line ''foo'') = (Again, s\<lparr>console := console s @ [unknown_notice ''foo'']\<rparr>) \<and>
   (py_lower (py_strip line) \<noteq> ''restart'' \<and> py_lower (py_strip line) \<noteq> ''quit'' \<and>
    py_lower (py_strip line) \<noteq> [] \<longrightarrow>
      monitor_command s (Line line) =
        (Again, s\<lparr>console := console s @ [unknown_notice (py_lower (py_strip line))]\<rparr>))"
  by (simp add: monitor_command_def command_idem command_restart command_quit command_foo)

theorem command_parsing_witness:
  "py_lower (py_strip ''  Foo Bar\<newline>'') \<noteq> ''restart'' \<and>
   py_lower (py_strip ''  Foo Bar\<newline>'') \<noteq> ''quit'' \<and>
   py_lower (py_strip ''  Foo Bar\<newline>'') \<noteq> [] \<and>
   monitor_command module_init (Line ''  Foo Bar\<newline>'') =
     (Again, module_init\<lparr>console := [unknown_notice ''foo bar'']\<rparr>)"
proof -
  have c: "py_lower (py_strip ''  Foo Bar\<newline>'') = ''foo bar''" by code_simp
  have "py_lower (py_strip ''  Foo Bar\<newline>'') \<noteq> ''restart'' \<and>
        py_lower (py_strip ''  Foo Bar\<newline>'') \<noteq> ''quit'' \<and>
        py_lower (py_strip ''  Foo Bar\<newline>'') \<noteq> [] \<longrightarrow>
        monitor_command module_init (Line ''  Foo Bar\<newline>'') =
          (Again, module_init\<lparr>console := console module_init @
             [unknown_notice (py_lower (py_strip ''  Foo Bar\<newline>''))]\<rparr>)"
    using command_parsing [of module_init "''  Foo Bar\<newline>''"] by blast
  then show ?thesis
    by (simp add: c module_init_def)
qed

subsection \<open>Opening a session\<close>

text \<open>
  Claim C1 against the code. A first message that is a text frame, or an empty binary
  frame, is not a handshake, and the client goes on to run the activities of the
  session all the same: the test of line 175 has no other branch. A binary frame with
  another first byte leaves the session loop, and a failing \<open>recv\<close> is fatal, as
  claimed.
\<close>

theorem open_session_without_handshake:
  "fst (open_session s (Recv (TextMsg t))) =
     (if ws_up s then RunActivities else FatalError ConnectionClosed) \<and>
   fst (open_session s (Recv (BytesMsg []))) =
     (if ws_up s then RunActivities else FatalError ConnectionClosed) \<and>
   fst (open_session s (Recv (BytesMsg (b # payload)))) =
     (if ws_up s then (if b = 0x00 then RunActivities else LeaveLoop)
      else FatalError ConnectionClosed) \<and>
   fst (open_session s RecvRaises) = FatalError ConnectionClosed \<and>
   fst (open_session module_init (Recv (TextMsg ''hello''))) = RunActivities \<and>
   fst (open_session module_init (Recv (BytesMsg []))) = RunActivities"
  by (simp add: open_session_def session_reset_def module_init_def Let_def)

subsection \<open>Sender: frames\<close>

lemma drain_into_concat: "drain_into acc q = acc @ concat q"
  by (induction q arbitrary: acc) simp_all

lemma send_frames_step:
  "FRAME_SIZE \<le> length acc \<Longrightarrow>
   send_frames acc = (take FRAME_SIZE acc # fst (send_frames (drop FRAME_SIZE acc)),
                      snd (send_frames (drop FRAME_SIZE acc)))"
  by (subst send_frames.simps) (simp add: case_prod_beta)

lemma send_frames_short: "length acc < FRAME_SIZE \<Longrightarrow> send_frames acc = ([], acc)"
  by (subst send_frames.simps) simp

lemma send_frames_concat: "concat (fst (send_frames acc)) @ snd (send_frames acc) = acc"
proof (induction acc rule: send_frames.induct)
  case (1 acc)
  show ?case
  proof (cases "FRAME_SIZE \<le> length acc")
    case True
    with "1" have "concat (fst (send_frames (drop FRAME_SIZE acc))) @ snd (send_frames (drop FRAME_SIZE acc))
        = drop FRAME_SIZE acc" by simp
    then show ?thesis
      by (simp add: send_frames_step [OF True])
  next
    case False
    then show ?thesis by (simp add: send_frames_short)
  qed
qed

lemma send_frames_length: "f \<in> set (fst (send_frames acc)) \<Longrightarrow> length f = FRAME_SIZE"
proof (induction acc arbitrary: f rule: send_frames.induct)
  case (1 acc)
  show ?case
  proof (cases "FRAME_SIZE \<le> length acc")
    case True
    from "1.prems" have "f = take FRAME_SIZE acc \<or> f \<in> set (fst (send_frames (drop FRAME_SIZE acc)))"
      by (simp add: send_frames_step [OF True])
    then show ?thesis
    proof
      assume "f = take FRAME_SIZE acc"
      then show ?thesis using True by simp
    next
      assume "f \<in> set (fst (send_frames (drop FRAME_SIZE acc)))"
      then show ?thesis by (rule "1.IH" [OF True])
    qed
  next
    case False
    with "1.prems" show ?thesis by (simp add: send_frames_short)
  qed
qed

lemma send_frames_residual: "length (snd (send_frames acc)) < FRAME_SIZE"
proof (induction acc rule: send_frames.induct)
  case (1 acc)
  show ?case
  proof (cases "FRAME_SIZE \<le> length acc")
    case True
    with "1" show ?thesis
      by (simp add: send_frames_step [OF True])
  next
    case False
    then show ?thesis by (simp add: send_frames_short)
  qed
qed

lemma send_frames_append:
  "send_frames (xs @ ys) =
     (fst (send_frames xs) @ fst (send_frames (snd (send_frames xs) @ ys)),
      snd (send_frames (snd (send_frames xs) @ ys)))"
proof (induction xs rule: send_frames.induct)
  case (1 acc)
  show ?case
  proof (cases "FRAME_SIZE \<le> length acc")
    case True
    then have "FRAME_SIZE \<le> length (acc @ ys)" by simp
    then have l: "send_frames (acc @ ys) =
        (take FRAME_SIZE acc # fst (send_frames (drop FRAME_SIZE acc @ ys)),
         snd (send_frames (drop FRAME_SIZE acc @ ys)))"
      using True by (simp add: send_frames_step)
    show ?thesis
      unfolding l using "1" [OF True] by (simp add: send_frames_step [OF True])
  next
    case False
    then show ?thesis by (simp add: send_frames_short)
  qed
qed

lemma send_polls_eq:
  "length acc < FRAME_SIZE \<Longrightarrow> send_polls acc qs = send_frames (acc @ concat (concat qs))"
proof (induction qs arbitrary: acc)
  case Nil
  then show ?case by (simp add: send_frames_short)
next
  case (Cons q qs)
  let ?r = "snd (send_frames (acc @ concat q))"
  have "length ?r < FRAME_SIZE" by (rule send_frames_residual)
  then have ih: "send_polls ?r qs = send_frames (?r @ concat (concat qs))" by (rule Cons.IH)
  have "send_frames (acc @ concat (concat (q # qs))) = send_frames ((acc @ concat q) @ concat (concat qs))"
    by simp
  also have "\<dots> = (fst (send_frames (acc @ concat q)) @ fst (send_frames (?r @ concat (concat qs))),
      snd (send_frames (?r @ concat (concat qs))))"
    by (rule send_frames_append)
  finally have "send_frames (acc @ concat (concat (q # qs))) =
      (fst (send_frames (acc @ concat q)) @ fst (send_polls ?r qs), snd (send_polls ?r qs))"
    by (simp only: ih)
  moreover have "send_polls acc (q # qs) =
      (fst (send_frames (acc @ concat q)) @ fst (send_polls ?r qs), snd (send_polls ?r qs))"
    by (simp add: drain_into_concat case_prod_beta)
  ultimately show ?case by simp
qed

text \<open>
  Claim C4. Whatever chunks the polls of the sender find in the queue, the frames handed
  to the encoder, concatenated, followed by what is left in \<open>accumulated\<close>, are the
  samples of all the chunks in their order; every frame has \<open>FRAME_SIZE\<close> (480)
  samples and fewer than 480 are left. Frames and rest depend on the samples only, not
  on how they were cut into chunks and polls.
\<close>

theorem frame_assembler_round_trip:
  "FRAME_SIZE = 480 \<and>
   concat (fst (send_audio qs)) @ snd (send_audio qs) = concat (concat qs) \<and>
   (\<forall>f \<in> set (fst (send_audio qs)). length f = FRAME_SIZE) \<and>
   length (snd (send_audio qs)) < FRAME_SIZE \<and>
   send_audio qs = send_frames (concat (concat qs))"
proof (intro conjI)
  have "length ([] :: 'a list) < FRAME_SIZE" by (simp add: FRAME_SIZE_def)
  then have "send_polls [] qs = send_frames ([] @ concat (concat qs))" by (rule send_polls_eq)
  then show e: "send_audio qs = send_frames (concat (concat qs))"
    by (simp add: send_audio_def)
  show "concat (fst (send_audio qs)) @ snd (send_audio qs) = concat (concat qs)"
    unfolding e by (rule send_frames_concat)
  show "\<forall>f \<in> set (fst (send_audio qs)). length f = FRAME_SIZE"
    unfolding e by (simp add: send_frames_length)
  show "length (snd (send_audio qs)) < FRAME_SIZE"
    unfolding e by (rule send_frames_residual)
  show "FRAME_SIZE = 480" by (simp add: FRAME_SIZE_def)
qed

theorem frame_assembler_round_trip_witness:
  "send_audio [[replicate 300 (5::nat), replicate 300 6], [], [replicate 500 7]] =
     ([replicate 300 5 @ replicate 180 6, replicate 120 6 @ replicate 360 7], replicate 140 7) \<and>
   length (replicate 300 (5::nat) @ replicate 180 6) = FRAME_SIZE \<and>
   length (replicate 120 (6::nat) @ replicate 360 7) = FRAME_SIZE \<and>
   length (replicate 140 (7::nat)) < FRAME_SIZE"
proof -
  note t = frame_assembler_round_trip
      [of "[[replicate 300 (5::nat), replicate 300 6], [], [replicate 500 7]]"]
  have s0: "send_frames (replicate 140 (7::nat)) = ([], replicate 140 7)"
    by (simp add: send_frames_short FRAME_SIZE_def)
  have s1: "send_frames (replicate 120 (6::nat) @ replicate 500 7) =
      ([replicate 120 6 @ replicate 360 7], replicate 140 7)"
    by (subst send_frames_step) (simp_all add: FRAME_SIZE_def s0)
  have s2: "send_frames (replicate 300 (5::nat) @ replicate 300 6 @ replicate 500 7) =
      ([replicate 300 5 @ replicate 180 6, replicate 120 6 @ replicate 360 7], replicate 140 7)"
    by (subst send_frames_step) (simp_all add: FRAME_SIZE_def s1)
  have h1: "send_audio [[replicate 300 (5::nat), replicate 300 6], [], [replicate 500 7]] =
     ([replicate 300 5 @ replicate 180 6, replicate 120 6 @ replicate 360 7], replicate 140 7)"
    using t [THEN conjunct2, THEN conjunct2, THEN conjunct2, THEN conjunct2]
    by (simp add: s2)
  have h2: "\<forall>f \<in> set (fst (send_audio [[replicate 300 (5::nat), replicate 300 6], [], [replicate 500 7]])).
      length f = FRAME_SIZE"
    by (rule t [THEN conjunct2, THEN conjunct2, THEN conjunct1])
  have h3: "length (snd (send_audio [[replicate 300 (5::nat), replicate 300 6], [], [replicate 500 7]]))
      < FRAME_SIZE"
    by (rule t [THEN conjunct2, THEN conjunct2, THEN conjunct2, THEN conjunct1])
  from h2 have "length (replicate 300 (5::nat) @ replicate 180 6) = FRAME_SIZE"
    and "length (replicate 120 (6::nat) @ replicate 360 7) = FRAME_SIZE"
    unfolding h1 by simp_all
  moreover from h3 have "length (replicate 140 (7::nat)) < FRAME_SIZE"
    unfolding h1 by simp
  ultimately show ?thesis using h1 by simp
qed

lemma drain_queue_empty: "drain_queue q = []"
  by (induction q) simp_all

lemma session_reset_clears:
  "mic_queue (session_reset s) = [] \<and> speaker_buffer (session_reset s) = [] \<and>
   current_line_buffer (session_reset s) = [] \<and> \<not> restart_requested (session_reset s)"
  by (simp add: session_reset_def drain_queue_empty)

lemma monitor_input_unknown_then_quit:
  "\<not> restart_requested s \<Longrightarrow>
   fst (monitor_input s [Line ''foo'', Timeout, Line ''  quit  '']) = Some False"
  by (simp add: monitor_command_def command_foo command_quit)

end
